theory Spec2Isabelle
  imports Main
begin

section \<open>Data model (src/types/index.ts)\<close>

text \<open>
  An \<open>EnvVariable\<close> is \<open>{ key: string; value: string; comment?: string }\<close>. The field
  \<open>value\<close> is called \<open>val\<close> here; an optional field is an \<open>option\<close>, with \<open>None\<close> for
  \<open>undefined\<close>. \<open>GeneratorConfig\<close> and \<open>GeneratorOptions\<close> share four field names in
  the source; the fields of the config carry the prefix \<open>cfg_\<close>, those of the parser
  options the prefix \<open>po_\<close>. A validation library is kept as the string the caller
  passed, since a caller can pass any string at run time (the test suite passes
  \<open>'invalid' as never\<close>).
\<close>

type_synonym path = string

record EnvVariable =
  key :: string
  val :: string
  comment :: "string option"

record ParsedEnvFile =
  variables :: "EnvVariable list"
  filePath :: path

record GeneratorConfig =
  envFiles :: "path list"
  outputPath :: path
  cfg_validationLib :: "string option"
  validationOutput :: "path option"
  cfg_requiredVars :: "string list option"
  cfg_parseTypes :: "bool option"
  cfg_strict :: "bool option"
  cfg_watch :: "bool option"

record ParserOptions =
  po_parseTypes :: "bool option"
  po_requiredVars :: "string list option"

record GeneratorOptions =
  parseTypes :: bool
  validationLib :: string
  requiredVars :: "string list"
  strict :: bool

section \<open>Errors (src/utils/errors.ts)\<close>

text \<open>
  An exception is a value: the class it was built with and its message. Every class of
  errors.ts extends \<open>EnvTypeGeneratorError\<close>, which extends the built-in \<open>Error\<close>; each
  subclass constructor puts its own prefix before the message.
\<close>

datatype error_class =
  JsError | EnvTypeGeneratorError | FileNotFoundError | ParseError | ValidationError
  | GenerationError

datatype error = Exn (error_name: error_class) (message: string)

definition new_EnvTypeGeneratorError :: "string \<Rightarrow> error" where
  "new_EnvTypeGeneratorError msg = Exn EnvTypeGeneratorError msg"

definition new_FileNotFoundError :: "path \<Rightarrow> error" where
  "new_FileNotFoundError file = Exn FileNotFoundError (''Environment file not found: '' @ file)"

definition new_ParseError :: "path \<Rightarrow> string \<Rightarrow> error" where
  "new_ParseError file reason = Exn ParseError (''Failed to parse '' @ file @ '': '' @ reason)"

definition new_ValidationError :: "string \<Rightarrow> error" where
  "new_ValidationError msg = Exn ValidationError (''Validation failed: '' @ msg)"

definition new_GenerationError :: "string \<Rightarrow> error" where
  "new_GenerationError msg = Exn GenerationError (''Type generation failed: '' @ msg)"

text \<open>\<open>e instanceof C\<close>: the class of \<open>e\<close> is \<open>C\<close> or extends it.\<close>

fun extends :: "error_class \<Rightarrow> error_class \<Rightarrow> bool" where
  "extends c JsError = True"
| "extends c EnvTypeGeneratorError = (c \<noteq> JsError)"
| "extends c d = (c = d)"

definition instanceof :: "error \<Rightarrow> error_class \<Rightarrow> bool" where
  "instanceof e c = extends (error_name e) c"

section \<open>The JavaScript \<open>Map\<close>, in insertion order\<close>

text \<open>
  A JavaScript \<open>Map\<close> iterates in insertion order, and \<open>set\<close> on a key that is already
  present replaces the value where the key stands. The model is an association list with
  one entry per key: \<open>Map_set\<close> replaces in place or appends, \<open>Map_values\<close> lists the
  values in order.
\<close>

type_synonym ('k, 'v) js_map = "('k \<times> 'v) list"

fun Map_set :: "('k, 'v) js_map \<Rightarrow> 'k \<Rightarrow> 'v \<Rightarrow> ('k, 'v) js_map" where
  "Map_set [] k v = [(k, v)]"
| "Map_set ((k', v') # m) k v = (if k' = k then (k, v) # m else (k', v') # Map_set m k v)"

definition Map_get :: "('k, 'v) js_map \<Rightarrow> 'k \<Rightarrow> 'v option" where
  "Map_get m k = map_of m k"

definition Map_delete :: "('k, 'v) js_map \<Rightarrow> 'k \<Rightarrow> ('k, 'v) js_map" where
  "Map_delete m k = filter (\<lambda>e. fst e \<noteq> k) m"

definition Map_values :: "('k, 'v) js_map \<Rightarrow> 'v list" where
  "Map_values m = map snd m"

section \<open>GeneratorService.mergeVariables (src/services/generator-service.ts)\<close>

text \<open>
  \<^verbatim>\<open>
  const merged = new Map<string, EnvVariable>();
  for (const variables of variableArrays)
    for (const variable of variables)
      merged.set(variable.key, variable);
  return Array.from(merged.values());
  \<close>
  \<open>merge_file\<close> is the inner loop, run on the map built so far.
\<close>

definition merge_file :: "EnvVariable list \<Rightarrow> (string, EnvVariable) js_map \<Rightarrow> (string, EnvVariable) js_map" where
  "merge_file vars merged = fold (\<lambda>variable m. Map_set m (key variable) variable) vars merged"

definition mergeVariables :: "EnvVariable list list \<Rightarrow> EnvVariable list" where
  "mergeVariables variableArrays = Map_values (fold merge_file variableArrays [])"

section \<open>The file system the service runs on\<close>

text \<open>
  \<open>fs\<close> and \<open>path\<close> are Node's own modules, so they are an environment here: the files
  and their text, the directories, \<open>path.resolve\<close> (which depends on the working
  directory of the process) and the answer of the operating system to a \<open>mkdir\<close> or a
  write (\<open>None\<close>: it goes through; \<open>Some msg\<close>: it throws an \<open>Error\<close> with that
  message). A call that changes the disk returns the new file system next to its result.
\<close>

record filesystem =
  contents :: "path \<rightharpoonup> string"
  dirs :: "path set"
  path_resolve :: "path \<Rightarrow> path"
  mkdir_error :: "path \<Rightarrow> string option"
  write_error :: "path \<Rightarrow> string option"

definition path_dirname :: "path \<Rightarrow> path" where
  \<comment> \<open>\<open>path.dirname\<close> on the absolute paths that \<open>path.resolve\<close> returns\<close>
  "path_dirname p =
     (let d = rev (drop 1 (dropWhile (\<lambda>c. c \<noteq> CHR ''/'') (rev p)))
      in if d = [] then ''/'' else d)"

definition path_ancestors :: "path \<Rightarrow> path list" where
  \<comment> \<open>the directory itself and every directory above it, the root apart\<close>
  "path_ancestors d =
     map (\<lambda>n. take n d) (filter (\<lambda>n. n = length d \<or> d ! n = CHR ''/'') [1..<Suc (length d)])"

definition existsSync :: "filesystem \<Rightarrow> path \<Rightarrow> bool" where
  "existsSync fs p = (contents fs p \<noteq> None \<or> p \<in> dirs fs)"

definition mkdirSync_recursive :: "filesystem \<Rightarrow> path \<Rightarrow> (error + unit) \<times> filesystem" where
  "mkdirSync_recursive fs d =
     (case mkdir_error fs d of
        Some msg \<Rightarrow> (Inl (Exn JsError msg), fs)
      | None \<Rightarrow> (Inr (), fs\<lparr>dirs := dirs fs \<union> set (path_ancestors d)\<rparr>))"

definition writeFileSync :: "filesystem \<Rightarrow> path \<Rightarrow> string \<Rightarrow> (error + unit) \<times> filesystem" where
  "writeFileSync fs p content =
     (case write_error fs p of
        Some msg \<Rightarrow> (Inl (Exn JsError msg), fs)
      | None \<Rightarrow> (Inr (), fs\<lparr>contents := (contents fs)(p \<mapsto> content)\<rparr>))"

section \<open>EnvParser (src/parsers/env-parser.ts)\<close>

text \<open>
  Modelled from the spec: \<open>EnvParser.parseFile\<close> and \<open>EnvParser.parseFiles\<close>, whose file
  env-parser.ts is not among the sources (its test suite is). The spec (4.4): "input a
  file path; fails with FileNotFound if the resolved absolute path does not exist. Reads
  the full text, splits into lines [...]. Output: a Parsed File record. [...] Parsing
  multiple files is independent per file - no cross-file state; a missing file fails that
  file's parse and the failure must propagate", and files are "processed strictly in
  caller-supplied order". The line parser and the value decoder are the parameter
  \<open>parseContent\<close>, from the text of a file to its variables.
\<close>

definition parseFile :: "(string \<Rightarrow> EnvVariable list) \<Rightarrow> filesystem \<Rightarrow> path \<Rightarrow> error + ParsedEnvFile" where
  "parseFile parseContent fs file =
     (let absolutePath = path_resolve fs file
      in case contents fs absolutePath of
           None \<Rightarrow> Inl (new_FileNotFoundError absolutePath)
         | Some text \<Rightarrow> Inr \<lparr>variables = parseContent text, filePath = absolutePath\<rparr>)"

fun parseFiles :: "(string \<Rightarrow> EnvVariable list) \<Rightarrow> filesystem \<Rightarrow> path list \<Rightarrow> error + ParsedEnvFile list" where
  "parseFiles parseContent fs [] = Inr []"
| "parseFiles parseContent fs (file # rest) =
     (case parseFile parseContent fs file of
        Inl e \<Rightarrow> Inl e
      | Inr parsed \<Rightarrow>
          (case parseFiles parseContent fs rest of
             Inl e \<Rightarrow> Inl e
           | Inr others \<Rightarrow> Inr (parsed # others)))"

subsection \<open>Type inference\<close>

text \<open>
  \<open>JSON.parse\<close> is the language's own: \<open>JSON_parse_ok\<close> says whether it accepts a text.
  It is a pushdown recogniser of the JSON grammar (ECMA-404), reading one character at a
  time: a mode, and the stack of the arrays and objects that are open.
\<close>

datatype json_ctx = InArray | InObject

datatype json_mode =
    MValue | MArrStart | MObjStart | MKey | MColon | MAfter
  | MStr bool | MEsc bool | MHex bool nat
  | MMinus | MZero | MInt | MDot | MFrac | MExp | MExpSign | MExpDigits
  | MLit string

definition is_ws :: "char \<Rightarrow> bool" where
  "is_ws c = (c \<in> set [CHR '' '', CHR 0x09, CHR 0x0A, CHR 0x0D])"

definition is_digit :: "char \<Rightarrow> bool" where
  "is_digit c = (c \<in> set ''0123456789'')"

definition is_hex :: "char \<Rightarrow> bool" where
  "is_hex c = (c \<in> set ''0123456789abcdefABCDEF'')"

fun json_after :: "json_ctx list \<Rightarrow> char \<Rightarrow> (json_mode \<times> json_ctx list) option" where
  "json_after st c =
     (if is_ws c then Some (MAfter, st)
      else if c = CHR '','' then
        (case st of [] \<Rightarrow> None | InArray # _ \<Rightarrow> Some (MValue, st) | InObject # _ \<Rightarrow> Some (MKey, st))
      else if c = CHR '']'' then
        (case st of InArray # st' \<Rightarrow> Some (MAfter, st') | _ \<Rightarrow> None)
      else if c = CHR ''}'' then
        (case st of InObject # st' \<Rightarrow> Some (MAfter, st') | _ \<Rightarrow> None)
      else None)"

fun json_start :: "json_ctx list \<Rightarrow> char \<Rightarrow> (json_mode \<times> json_ctx list) option" where
  "json_start st c =
     (if c = CHR ''{'' then Some (MObjStart, InObject # st)
      else if c = CHR ''['' then Some (MArrStart, InArray # st)
      else if c = CHR 0x22 then Some (MStr False, st)
      else if c = CHR ''-'' then Some (MMinus, st)
      else if c = CHR ''0'' then Some (MZero, st)
      else if is_digit c then Some (MInt, st)
      else if c = CHR ''t'' then Some (MLit ''rue'', st)
      else if c = CHR ''f'' then Some (MLit ''alse'', st)
      else if c = CHR ''n'' then Some (MLit ''ull'', st)
      else None)"

fun json_step :: "json_mode \<times> json_ctx list \<Rightarrow> char \<Rightarrow> (json_mode \<times> json_ctx list) option" where
  "json_step (MValue, st) c = (if is_ws c then Some (MValue, st) else json_start st c)"
| "json_step (MArrStart, st) c =
     (if is_ws c then Some (MArrStart, st)
      else if c = CHR '']'' then Some (MAfter, tl st)
      else json_start st c)"
| "json_step (MObjStart, st) c =
     (if is_ws c then Some (MObjStart, st)
      else if c = CHR ''}'' then Some (MAfter, tl st)
      else if c = CHR 0x22 then Some (MStr True, st)
      else None)"
| "json_step (MKey, st) c =
     (if is_ws c then Some (MKey, st)
      else if c = CHR 0x22 then Some (MStr True, st)
      else None)"
| "json_step (MColon, st) c =
     (if is_ws c then Some (MColon, st)
      else if c = CHR '':'' then Some (MValue, st)
      else None)"
| "json_step (MAfter, st) c = json_after st c"
| "json_step (MStr k, st) c =
     (if c = CHR 0x22 then Some (if k then MColon else MAfter, st)
      else if c = CHR 0x5C then Some (MEsc k, st)
      else if (of_char c :: nat) < 32 then None
      else Some (MStr k, st))"
| "json_step (MEsc k, st) c =
     (if c \<in> set [CHR 0x22, CHR 0x5C, CHR ''/'', CHR ''b'', CHR ''f'', CHR ''n'', CHR ''r'', CHR ''t'']
        then Some (MStr k, st)
      else if c = CHR ''u'' then Some (MHex k 4, st)
      else None)"
| "json_step (MHex k n, st) c =
     (if is_hex c then Some (if n \<le> 1 then MStr k else MHex k (n - 1), st) else None)"
| "json_step (MMinus, st) c =
     (if c = CHR ''0'' then Some (MZero, st)
      else if is_digit c then Some (MInt, st)
      else None)"
| "json_step (MZero, st) c =
     (if c = CHR ''.'' then Some (MDot, st)
      else if c = CHR ''e'' \<or> c = CHR ''E'' then Some (MExp, st)
      else json_after st c)"
| "json_step (MInt, st) c =
     (if is_digit c then Some (MInt, st)
      else if c = CHR ''.'' then Some (MDot, st)
      else if c = CHR ''e'' \<or> c = CHR ''E'' then Some (MExp, st)
      else json_after st c)"
| "json_step (MDot, st) c = (if is_digit c then Some (MFrac, st) else None)"
| "json_step (MFrac, st) c =
     (if is_digit c then Some (MFrac, st)
      else if c = CHR ''e'' \<or> c = CHR ''E'' then Some (MExp, st)
      else json_after st c)"
| "json_step (MExp, st) c =
     (if c = CHR ''+'' \<or> c = CHR ''-'' then Some (MExpSign, st)
      else if is_digit c then Some (MExpDigits, st)
      else None)"
| "json_step (MExpSign, st) c = (if is_digit c then Some (MExpDigits, st) else None)"
| "json_step (MExpDigits, st) c =
     (if is_digit c then Some (MExpDigits, st) else json_after st c)"
| "json_step (MLit [], st) c = None"
| "json_step (MLit (x # xs), st) c =
     (if c = x then Some (if xs = [] then MAfter else MLit xs, st) else None)"

fun json_run :: "(json_mode \<times> json_ctx list) option \<Rightarrow> string \<Rightarrow> (json_mode \<times> json_ctx list) option" where
  "json_run s [] = s"
| "json_run None (c # cs) = None"
| "json_run (Some s) (c # cs) = json_run (json_step s c) cs"

definition json_final :: "json_mode \<times> json_ctx list \<Rightarrow> bool" where
  "json_final s = (snd s = [] \<and> fst s \<in> set [MAfter, MZero, MInt, MFrac, MExpDigits])"

definition JSON_parse_ok :: "string \<Rightarrow> bool" where
  "JSON_parse_ok text =
     (case json_run (Some (MValue, [])) text of None \<Rightarrow> False | Some s \<Rightarrow> json_final s)"

text \<open>
  Modelled from the spec: \<open>EnvParser.inferType\<close> (env-parser.ts is not among the sources;
  its tests are). The spec (4.3): "pure classification of a decoded value string into
  boolean | number | object | string, case-insensitive for booleans (true/false in any
  case) and using standard decimal numeric literal syntax (optional leading -, digits,
  optional single . and fractional digits; no exponent, no leading +) for numbers. A value
  is object only if it parses successfully as syntactically valid structured data (array
  or key/value structure) under the decoding rules of the target's native structured-data
  literal notation; parse failure (including partial/invalid structures) falls back to
  string. Order of checks: boolean, number, object, string; first match wins".
\<close>

datatype type_tag = TString | TNumber | TBoolean | TObject

definition toLowerCase_char :: "char \<Rightarrow> char" where
  "toLowerCase_char c =
     (case map_of (zip ''ABCDEFGHIJKLMNOPQRSTUVWXYZ'' ''abcdefghijklmnopqrstuvwxyz'') c of
        Some l \<Rightarrow> l
      | None \<Rightarrow> c)"

definition toLowerCase :: "string \<Rightarrow> string" where
  "toLowerCase s = map toLowerCase_char s"

definition is_boolean_text :: "string \<Rightarrow> bool" where
  "is_boolean_text v = (toLowerCase v = ''true'' \<or> toLowerCase v = ''false'')"

definition is_number_text :: "string \<Rightarrow> bool" where
  "is_number_text v =
     (let unsigned = (case v of c # r \<Rightarrow> if c = CHR ''-'' then r else v | [] \<Rightarrow> v);
          whole = takeWhile is_digit unsigned;
          rest = dropWhile is_digit unsigned
      in whole \<noteq> [] \<and>
         (case rest of
            [] \<Rightarrow> True
          | c # frac \<Rightarrow> c = CHR ''.'' \<and> frac \<noteq> [] \<and> list_all is_digit frac))"

definition is_structured_text :: "string \<Rightarrow> bool" where
  "is_structured_text v =
     (case dropWhile is_ws v of
        [] \<Rightarrow> False
      | c # _ \<Rightarrow> (c = CHR ''{'' \<or> c = CHR ''['') \<and> JSON_parse_ok v)"

definition inferType :: "string \<Rightarrow> type_tag" where
  "inferType v =
     (if is_boolean_text v then TBoolean
      else if is_number_text v then TNumber
      else if is_structured_text v then TObject
      else TString)"

section \<open>TypeGenerator (src/generators/type-generator.ts)\<close>

text \<open>
  Modelled from the spec: \<open>TypeGenerator.generateTypes\<close>, whose file type-generator.ts is
  not among the sources (its tests and the README's samples of the output are). The spec
  (4.6): "produce a declaration-text block ascribing a type to every key [...].
  Per-variable required/optional decision: required = strict OR key in requiredVars;
  optional variables get a type annotation unioned with an explicit "absent" marker,
  required variables get the bare type. Per-variable type text: if parseTypes is false,
  always string; if true, the Type Inferencer's result is used, with object rendered as a
  generic structured-data type. A leading documentation comment is emitted immediately
  before a variable's declaration line whenever that variable's record carries a
  comment", and (6) "plus a typed read-only accessor declaration for each variable". The
  text of the lines is the one the tests and the README show:
  \<^verbatim>\<open>
  declare namespace NodeJS {
    interface ProcessEnv {
      /** Database connection */
      DATABASE_URL?: string | undefined;      (required: DATABASE_URL: string;)
    }
  }

  export declare const env: {
    DATABASE_URL?: string;                    (required: DATABASE_URL: string;)
  };
  \<close>
\<close>

definition type_text :: "type_tag \<Rightarrow> string" where
  "type_text t = (case t of TString \<Rightarrow> ''string'' | TNumber \<Rightarrow> ''number''
                  | TBoolean \<Rightarrow> ''boolean'' | TObject \<Rightarrow> ''object'')"

definition variable_type :: "GeneratorOptions \<Rightarrow> EnvVariable \<Rightarrow> string" where
  "variable_type options v = (if parseTypes options then type_text (inferType (val v)) else ''string'')"

definition is_required :: "GeneratorOptions \<Rightarrow> EnvVariable \<Rightarrow> bool" where
  "is_required options v = (strict options \<or> key v \<in> set (requiredVars options))"

definition comment_lines :: "EnvVariable \<Rightarrow> string list" where
  "comment_lines v = (case comment v of None \<Rightarrow> [] | Some c \<Rightarrow> [''    /** '' @ c @ '' */''])"

definition processEnv_line :: "GeneratorOptions \<Rightarrow> EnvVariable \<Rightarrow> string" where
  "processEnv_line options v =
     (if is_required options v
      then ''    '' @ key v @ '': '' @ variable_type options v @ '';''
      else ''    '' @ key v @ ''?: '' @ variable_type options v @ '' | undefined;'')"

definition env_line :: "GeneratorOptions \<Rightarrow> EnvVariable \<Rightarrow> string" where
  "env_line options v =
     (if is_required options v
      then ''  '' @ key v @ '': '' @ variable_type options v @ '';''
      else ''  '' @ key v @ ''?: '' @ variable_type options v @ '';'')"

definition processEnv_header :: "string list" where
  "processEnv_header = [''declare namespace NodeJS {'', ''  interface ProcessEnv {'']"

definition processEnv_footer :: "string list" where
  "processEnv_footer = [''  }'', ''}'']"

definition env_header :: "string list" where
  "env_header = ['''', ''export declare const env: {'']"

definition env_footer :: "string list" where
  "env_footer = [''};'']"


definition generateTypes_lines :: "EnvVariable list \<Rightarrow> GeneratorOptions \<Rightarrow> string list" where
  "generateTypes_lines vars options =
     processEnv_header
     @ concat (map (\<lambda>v. comment_lines v @ [processEnv_line options v]) vars)
     @ processEnv_footer @ env_header
     @ map (env_line options) vars
     @ env_footer"

definition join_lines :: "string list \<Rightarrow> string" where
  "join_lines ls = concat (map (\<lambda>l. l @ [CHR 0x0A]) ls)"

definition generateTypes :: "EnvVariable list \<Rightarrow> GeneratorOptions \<Rightarrow> string" where
  "generateTypes vars options = join_lines (generateTypes_lines vars options)"

section \<open>ValidationGenerator (src/generators/validation-generator.ts)\<close>

text \<open>
  Modelled from the spec: \<open>ValidationGenerator.generateSchema\<close>, whose file
  validation-generator.ts is not among the sources (its tests are). The spec (4.7):
  "given the same Merged Variable Set and Options plus a requested schema dialect in
  {zod, yup, joi, none}, returns generated schema source text, or an explicit absent
  result for dialect none. Fails with GenerationError for any dialect outside the four
  recognized values." The three schema texts are parameters; the absent result
  (\<open>null\<close>) is \<open>None\<close>.
\<close>

record schema_texts =
  zod_schema :: "EnvVariable list \<Rightarrow> GeneratorOptions \<Rightarrow> string"
  yup_schema :: "EnvVariable list \<Rightarrow> GeneratorOptions \<Rightarrow> string"
  joi_schema :: "EnvVariable list \<Rightarrow> GeneratorOptions \<Rightarrow> string"

definition generateSchema ::
  "schema_texts \<Rightarrow> EnvVariable list \<Rightarrow> string \<Rightarrow> GeneratorOptions \<Rightarrow> error + string option" where
  "generateSchema texts vars lib options =
     (if lib = ''none'' then Inr None
      else if lib = ''zod'' then Inr (Some (zod_schema texts vars options))
      else if lib = ''yup'' then Inr (Some (yup_schema texts vars options))
      else if lib = ''joi'' then Inr (Some (joi_schema texts vars options))
      else Inl (new_GenerationError (''Unsupported validation library: '' @ lib)))"

section \<open>GeneratorService (src/services/generator-service.ts)\<close>

text \<open>
  The service holds its collaborators in fields (\<open>this.parser\<close>, \<open>this.typeGenerator\<close>,
  \<open>this.validationGenerator\<close>); the record has the four methods \<open>generate\<close> calls on
  them. Each may throw, so each returns an \<open>error + \<dots>\<close>.
\<close>

record GeneratorService =
  parser_parseFiles :: "filesystem \<Rightarrow> path list \<Rightarrow> ParserOptions \<Rightarrow> error + ParsedEnvFile list"
  typeGenerator_generateTypes :: "EnvVariable list \<Rightarrow> GeneratorOptions \<Rightarrow> error + string"
  typeGenerator_generateRuntimeHelper :: "EnvVariable list \<Rightarrow> GeneratorOptions \<Rightarrow> error + string"
  validationGenerator_generateSchema ::
    "EnvVariable list \<Rightarrow> string \<Rightarrow> GeneratorOptions \<Rightarrow> error + string option"

text \<open>
  The service of the repository: the parser, the type generator and the validation
  generator modelled above; the text of the runtime helper is a parameter.
\<close>

definition new_GeneratorService ::
  "(string \<Rightarrow> EnvVariable list) \<Rightarrow> (EnvVariable list \<Rightarrow> GeneratorOptions \<Rightarrow> string) \<Rightarrow> schema_texts
   \<Rightarrow> GeneratorService" where
  "new_GeneratorService parseContent runtimeHelper texts =
     \<lparr>parser_parseFiles = (\<lambda>fs files opts. parseFiles parseContent fs files),
      typeGenerator_generateTypes = (\<lambda>vars options. Inr (generateTypes vars options)),
      typeGenerator_generateRuntimeHelper = (\<lambda>vars options. Inr (runtimeHelper vars options)),
      validationGenerator_generateSchema = generateSchema texts\<rparr>"

text \<open>
  \<^verbatim>\<open>
  private writeFile(filePath: string, content: string): void {
    try {
      const absolutePath = path.resolve(filePath);
      const directory = path.dirname(absolutePath);
      if (!fs.existsSync(directory)) { fs.mkdirSync(directory, { recursive: true }); }
      fs.writeFileSync(absolutePath, content, 'utf-8');
    } catch (error) {
      throw new GenerationError(`Failed to write file ${filePath}: ${(error as Error).message}`);
    }
  }
  \<close>
\<close>

definition writeFile_try :: "filesystem \<Rightarrow> path \<Rightarrow> string \<Rightarrow> (error + unit) \<times> filesystem" where
  "writeFile_try fs file content =
     (let absolutePath = path_resolve fs file;
          directory = path_dirname absolutePath
      in case (if \<not> existsSync fs directory then mkdirSync_recursive fs directory else (Inr (), fs)) of
           (Inl e, fs1) \<Rightarrow> (Inl e, fs1)
         | (Inr u, fs1) \<Rightarrow> writeFileSync fs1 absolutePath content)"

definition writeFile :: "filesystem \<Rightarrow> path \<Rightarrow> string \<Rightarrow> (error + unit) \<times> filesystem" where
  "writeFile fs file content =
     (case writeFile_try fs file content of
        (Inl e, fs1) \<Rightarrow>
          (Inl (new_GenerationError (''Failed to write file '' @ file @ '': '' @ message e)), fs1)
      | (Inr u, fs1) \<Rightarrow> (Inr u, fs1))"

text \<open>
  The options \<open>generate\<close> builds: \<open>config.parseTypes ?? true\<close>,
  \<open>config.validationLib ?? 'none'\<close>, \<open>config.requiredVars ?? []\<close>, \<open>config.strict ?? false\<close>.
\<close>

definition build_options :: "GeneratorConfig \<Rightarrow> GeneratorOptions" where
  "build_options config =
     \<lparr>parseTypes = (case cfg_parseTypes config of None \<Rightarrow> True | Some b \<Rightarrow> b),
      validationLib = (case cfg_validationLib config of None \<Rightarrow> ''none'' | Some lib \<Rightarrow> lib),
      requiredVars = (case cfg_requiredVars config of None \<Rightarrow> [] | Some rs \<Rightarrow> rs),
      strict = (case cfg_strict config of None \<Rightarrow> False | Some b \<Rightarrow> b)\<rparr>"

definition helper_path :: "path \<Rightarrow> path" where
  \<comment> \<open>\<open>outputPath.replace(/\.d\.ts$/, '.js')\<close>\<close>
  "helper_path p =
     (if 5 \<le> length p \<and> drop (length p - 5) p = ''.d.ts''
      then take (length p - 5) p @ ''.js'' else p)"

text \<open>
  \<open>if (config.parseTypes) { \<dots> }\<close>: \<open>undefined\<close> and \<open>false\<close> are falsy.
\<close>

definition write_runtime_helper ::
  "GeneratorService \<Rightarrow> GeneratorConfig \<Rightarrow> EnvVariable list \<Rightarrow> GeneratorOptions \<Rightarrow> filesystem
   \<Rightarrow> (error + unit) \<times> filesystem" where
  "write_runtime_helper svc config allVariables options fs =
     (if cfg_parseTypes config = Some True then
        (let helperPath = helper_path (outputPath config)
         in case typeGenerator_generateRuntimeHelper svc allVariables options of
              Inl e \<Rightarrow> (Inl e, fs)
            | Inr runtimeHelper \<Rightarrow> writeFile fs helperPath runtimeHelper)
      else (Inr (), fs))"

text \<open>
  \<open>if (config.validationLib && config.validationLib !== 'none' && config.validationOutput)\<close>:
  \<open>undefined\<close> and the empty string are falsy; \<open>if (validationSchema)\<close>: \<open>null\<close> and the
  empty string are falsy.
\<close>

definition validation_requested :: "GeneratorConfig \<Rightarrow> bool" where
  "validation_requested config =
     (case cfg_validationLib config of
        None \<Rightarrow> False
      | Some lib \<Rightarrow> lib \<noteq> [] \<and> lib \<noteq> ''none'' \<and>
          (case validationOutput config of None \<Rightarrow> False | Some out \<Rightarrow> out \<noteq> []))"

definition write_validation_schema ::
  "GeneratorService \<Rightarrow> GeneratorConfig \<Rightarrow> EnvVariable list \<Rightarrow> GeneratorOptions \<Rightarrow> filesystem
   \<Rightarrow> (error + unit) \<times> filesystem" where
  "write_validation_schema svc config allVariables options fs =
     (if validation_requested config then
        (case validationGenerator_generateSchema svc allVariables (the (cfg_validationLib config)) options of
           Inl e \<Rightarrow> (Inl e, fs)
         | Inr validationSchema \<Rightarrow>
             (case validationSchema of
                None \<Rightarrow> (Inr (), fs)
              | Some text \<Rightarrow>
                  if text \<noteq> [] then writeFile fs (the (validationOutput config)) text
                  else (Inr (), fs)))
      else (Inr (), fs))"

text \<open>
  The body of the \<open>try\<close> of \<open>generate\<close>, statement by statement: parse every file, merge,
  build the options, write the declarations, then the runtime helper, then the schema.
  A statement that throws ends the body; the files written before it stay written.
\<close>

definition generate_try :: "GeneratorService \<Rightarrow> GeneratorConfig \<Rightarrow> filesystem \<Rightarrow> (error + unit) \<times> filesystem" where
  "generate_try svc config fs =
     (case parser_parseFiles svc fs (envFiles config)
             \<lparr>po_parseTypes = cfg_parseTypes config, po_requiredVars = cfg_requiredVars config\<rparr> of
        Inl e \<Rightarrow> (Inl e, fs)
      | Inr parsedFiles \<Rightarrow>
          (let allVariables = mergeVariables (map variables parsedFiles);
               options = build_options config
           in case typeGenerator_generateTypes svc allVariables options of
                Inl e \<Rightarrow> (Inl e, fs)
              | Inr typeDefinition \<Rightarrow>
                  (case writeFile fs (outputPath config) typeDefinition of
                     (Inl e, fs1) \<Rightarrow> (Inl e, fs1)
                   | (Inr u, fs1) \<Rightarrow>
                       (case write_runtime_helper svc config allVariables options fs1 of
                          (Inl e, fs2) \<Rightarrow> (Inl e, fs2)
                        | (Inr u, fs2) \<Rightarrow>
                            write_validation_schema svc config allVariables options fs2))))"

text \<open>
  \<open>generate\<close>: \<open>try { \<dots> } catch (error) { throw new GenerationError((error as Error).message); }\<close>
\<close>

definition generate :: "GeneratorService \<Rightarrow> GeneratorConfig \<Rightarrow> filesystem \<Rightarrow> (error + unit) \<times> filesystem" where
  "generate svc config fs =
     (case generate_try svc config fs of
        (Inl e, fs1) \<Rightarrow> (Inl (new_GenerationError (message e)), fs1)
      | (Inr u, fs1) \<Rightarrow> (Inr u, fs1))"

section \<open>FileWatcher (src/services/file-watcher.ts)\<close>

text \<open>
  The watcher lives on Node's event loop, which is single-threaded and cooperative: a
  method runs to its end (or to its \<open>await\<close>) before anything else does. The state is the
  two fields of the object, \<open>watcher\<close> and \<open>debounceTimers\<close>, and what the object shares
  with its environment:
  \<^item> the chokidar handle \<open>this.watcher\<close> points to: the resolved paths, the delay the
    \<open>'change'\<close> listener closes over, and whether \<open>close()\<close> has been called on it (a
    handle emits no event once \<open>close()\<close> has been called);
  \<^item> the timers of the event loop that are pending: the id \<open>setTimeout\<close> returned, the
    time from which the timer may fire, and the \<open>filePath\<close> its callback closes over;
  \<^item> the clock, in milliseconds;
  \<^item> \<open>invoked\<close>, the calls of \<open>onChanged\<close> so far, with the path of each.
  A \<open>Timeout\<close> object is its id. Delays and times are natural numbers, and a timer
  waits the delay it was given (Node replaces a delay outside 1..2147483647 by 1; such
  delays are outside this model). The callback \<open>onChanged\<close> is not a field of the options
  here: a call of it is an entry of \<open>invoked\<close>. The \<open>'error'\<close> listener of \<open>watch\<close> and
  an exception of the callback touch neither field of the object and are left out.
\<close>

record WatcherOptions =
  files :: "path list"
  debounceMs :: "nat option"

record FSWatcher =
  watched :: "path list"
  listener_debounceMs :: nat
  closed :: bool

record timeout =
  timer_id :: nat
  due :: nat
  for_path :: path

record world =
  watcher :: "FSWatcher option"
  debounceTimers :: "(path, nat) js_map"
  now :: nat
  timeouts :: "timeout list"
  next_timer :: nat
  invoked :: "path list"

definition new_FileWatcher :: "nat \<Rightarrow> world" where
  \<comment> \<open>\<open>watcher = null\<close>, \<open>debounceTimers = new Map()\<close>, at some time of the clock\<close>
  "new_FileWatcher t =
     \<lparr>watcher = None, debounceTimers = [], now = t, timeouts = [], next_timer = 0, invoked = []\<rparr>"

definition setTimeout :: "world \<Rightarrow> nat \<Rightarrow> path \<Rightarrow> nat \<times> world" where
  "setTimeout w ms file =
     (next_timer w,
      w\<lparr>timeouts := timeouts w @ [\<lparr>timer_id = next_timer w, due = now w + ms, for_path = file\<rparr>],
        next_timer := Suc (next_timer w)\<rparr>)"

definition clearTimeout :: "world \<Rightarrow> nat \<Rightarrow> world" where
  "clearTimeout w t = w\<lparr>timeouts := filter (\<lambda>x. timer_id x \<noteq> t) (timeouts w)\<rparr>"

text \<open>
  \<^verbatim>\<open>
  public watch(options: WatcherOptions): void {
    const { files, onChanged, debounceMs = 300 } = options;
    if (this.watcher) { throw new EnvTypeGeneratorError('Watcher is already running'); }
    const absolutePaths = files.map((file) => path.resolve(file));
    this.watcher = chokidar.watch(absolutePaths, { ... });
    this.watcher.on('change', (filePath) => { this.handleChange(filePath, onChanged, debounceMs); });
    ...
  }
  \<close>
\<close>

definition watch :: "(path \<Rightarrow> path) \<Rightarrow> world \<Rightarrow> WatcherOptions \<Rightarrow> (error + unit) \<times> world" where
  "watch resolve w options =
     (let delay = (case debounceMs options of None \<Rightarrow> 300 | Some d \<Rightarrow> d)
      in if watcher w \<noteq> None
         then (Inl (new_EnvTypeGeneratorError ''Watcher is already running''), w)
         else (Inr (),
               w\<lparr>watcher := Some \<lparr>watched = map resolve (files options),
                                  listener_debounceMs = delay, closed = False\<rparr>\<rparr>))"

text \<open>
  \<^verbatim>\<open>
  private handleChange(filePath, callback, debounceMs): void {
    const existingTimer = this.debounceTimers.get(filePath);
    if (existingTimer) { clearTimeout(existingTimer); }
    const timer = setTimeout(() => {
      this.debounceTimers.delete(filePath);
      void this.executeCallback(callback, filePath);
    }, debounceMs);
    this.debounceTimers.set(filePath, timer);
  }
  \<close>
  \<open>timer_callback\<close> is the arrow function given to \<open>setTimeout\<close>.
\<close>

definition handleChange :: "world \<Rightarrow> path \<Rightarrow> nat \<Rightarrow> world" where
  "handleChange w file delay =
     (let w1 = (case Map_get (debounceTimers w) file of
                  Some existingTimer \<Rightarrow> clearTimeout w existingTimer
                | None \<Rightarrow> w);
          (timer, w2) = setTimeout w1 delay file
      in w2\<lparr>debounceTimers := Map_set (debounceTimers w2) file timer\<rparr>)"

definition timer_callback :: "world \<Rightarrow> path \<Rightarrow> world" where
  "timer_callback w file =
     w\<lparr>debounceTimers := Map_delete (debounceTimers w) file, invoked := invoked w @ [file]\<rparr>"

text \<open>
  \<^verbatim>\<open>
  public async stop(): Promise<void> {
    if (!this.watcher) { return; }
    for (const timer of this.debounceTimers.values()) { clearTimeout(timer); }
    this.debounceTimers.clear();
    await this.watcher.close();
    this.watcher = null;
  }
  \<close>
  \<open>clear_timers\<close> is the loop and \<open>debounceTimers.clear()\<close>; \<open>close_watcher\<close> is the call
  \<open>this.watcher.close()\<close>, after which the handle emits nothing. \<open>stop_begin\<close> runs to
  the \<open>await\<close>; \<open>stop_finish\<close> is what runs when the promise of \<open>close()\<close> is
  fulfilled.
\<close>

definition clear_timers :: "world \<Rightarrow> world" where
  "clear_timers w =
     (fold (\<lambda>timer w'. clearTimeout w' timer) (Map_values (debounceTimers w)) w)
       \<lparr>debounceTimers := []\<rparr>"

definition close_watcher :: "world \<Rightarrow> world" where
  "close_watcher w =
     (case watcher w of None \<Rightarrow> w | Some h \<Rightarrow> w\<lparr>watcher := Some (h\<lparr>closed := True\<rparr>)\<rparr>)"

definition stop_begin :: "world \<Rightarrow> world" where
  "stop_begin w = (if watcher w = None then w else close_watcher (clear_timers w))"

definition stop_finish :: "world \<Rightarrow> world" where
  "stop_finish w = w\<lparr>watcher := None\<rparr>"

definition isWatching :: "world \<Rightarrow> bool" where
  "isWatching w = (watcher w \<noteq> None)"

subsection \<open>The event loop\<close>

text \<open>
  What the event loop can do between two calls of the methods: deliver a \<open>'change'\<close>
  event of a handle that is not closed, to its listener; let time pass; run the callback
  of a pending timer whose delay has elapsed (a timer never fires early; it may fire
  late). \<open>step\<close> is \<open>None\<close> when the event cannot happen in that state.
\<close>

datatype event = Change path | Tick nat | Fire nat

fun step :: "world \<Rightarrow> event \<Rightarrow> world option" where
  "step w (Change file) =
     (case watcher w of
        None \<Rightarrow> None
      | Some h \<Rightarrow> if closed h then None else Some (handleChange w file (listener_debounceMs h)))"
| "step w (Tick n) = Some (w\<lparr>now := now w + n\<rparr>)"
| "step w (Fire t) =
     (case find (\<lambda>x. timer_id x = t) (timeouts w) of
        None \<Rightarrow> None
      | Some x \<Rightarrow>
          if due x \<le> now w then Some (timer_callback (clearTimeout w t) (for_path x)) else None)"

fun run :: "world \<Rightarrow> event list \<Rightarrow> world option" where
  "run w [] = Some w"
| "run w (e # es) = (case step w e of None \<Rightarrow> None | Some w' \<Rightarrow> run w' es)"

text \<open>
  A call of \<open>stop\<close>, with the events \<open>es\<close> that happen while it awaits \<open>close()\<close>; the
  result is the state when the promise of \<open>stop\<close> is fulfilled.
\<close>

definition stop :: "world \<Rightarrow> event list \<Rightarrow> world option" where
  "stop w es =
     (if watcher w = None then Some w
      else (case run (stop_begin w) es of None \<Rightarrow> None | Some w' \<Rightarrow> Some (stop_finish w')))"

text \<open>
  The states a watcher can be in: it is created, and then its methods are called and
  events happen, in any order. A caller awaits \<open>stop\<close> before it starts the watcher again,
  so \<open>stop_finish\<close> finds the handle that \<open>stop_begin\<close> closed.
\<close>

inductive reachable :: "world \<Rightarrow> bool" where
  created: "reachable (new_FileWatcher t)"
| watch: "reachable w \<Longrightarrow> reachable (snd (watch resolve w options))"
| event: "reachable w \<Longrightarrow> step w e = Some w' \<Longrightarrow> reachable w'"
| stop_begin: "reachable w \<Longrightarrow> reachable (stop_begin w)"
| stop_finish: "reachable w \<Longrightarrow> watcher w = Some h \<Longrightarrow> closed h \<Longrightarrow> reachable (stop_finish w)"



subsection \<open>What holds in every state of a watcher\<close>

text \<open>
  \<open>registered\<close>: a pending timer is the one the map has for its path. \<open>pending\<close>: a
  timer in the map is pending. \<open>unique_ids\<close>: \<open>setTimeout\<close> gives each timer its own id.
  \<open>released\<close>: the watcher has no handle, or \<open>close()\<close> has been called on it.
  \<open>consistent\<close>: all of this, and no timer is pending once the handle is released.
  \<open>waiting\<close> and \<open>fired\<close> are the two phases of a burst on a file \<open>f\<close> with delay
  \<open>d\<close>, after \<open>n\<close> earlier calls for \<open>f\<close>: the callback has not run, and the timer of
  \<open>f\<close> (when a change has come, \<open>since\<close> ago) is due \<open>d\<close> after the last change; or the
  callback has run once, at least \<open>d\<close> after the last change, and no timer of \<open>f\<close> is
  pending.
\<close>

definition registered :: "world \<Rightarrow> bool" where
  "registered w =
     (\<forall>x \<in> set (timeouts w). Map_get (debounceTimers w) (for_path x) = Some (timer_id x))"

definition released :: "world \<Rightarrow> bool" where
  "released w = (case watcher w of None \<Rightarrow> True | Some h \<Rightarrow> closed h)"

definition pending :: "world \<Rightarrow> bool" where
  "pending w =
     (\<forall>file t. Map_get (debounceTimers w) file = Some t \<longrightarrow>
        (\<exists>x \<in> set (timeouts w). timer_id x = t \<and> for_path x = file))"

definition unique_ids :: "world \<Rightarrow> bool" where
  "unique_ids w =
     (distinct (map timer_id (timeouts w)) \<and> (\<forall>x \<in> set (timeouts w). timer_id x < next_timer w))"

definition consistent :: "world \<Rightarrow> bool" where
  "consistent w =
     (registered w \<and> pending w \<and> unique_ids w \<and> (released w \<longrightarrow> timeouts w = []))"



section \<open>The inputs of the examples\<close>

text \<open>
  A project directory \<open>/app\<close> with one file \<open>.env\<close>, on a disk where every write goes
  through; and a service whose parser finds the one variable \<open>PORT=3000\<close> in any text.
\<close>

definition example_fs :: filesystem where
  "example_fs = \<lparr>contents = [''/app/.env'' \<mapsto> ''PORT=3000''], dirs = {''/app''},
                 path_resolve = (\<lambda>p. ''/app/'' @ p), mkdir_error = (\<lambda>d. None),
                 write_error = (\<lambda>p. None)\<rparr>"

definition example_service :: GeneratorService where
  "example_service =
     new_GeneratorService (\<lambda>text. [\<lparr>key = ''PORT'', val = ''3000'', comment = None\<rparr>])
       (\<lambda>vars options. ''export const env = {};'')
       \<lparr>zod_schema = (\<lambda>vars options. ''z''), yup_schema = (\<lambda>vars options. ''y''),
        joi_schema = (\<lambda>vars options. ''j'')\<rparr>"

text \<open>
  A watcher created at time 0 and started on one file, with the given delay.
\<close>

definition example_watcher :: "nat \<Rightarrow> world" where
  "example_watcher delay =
     snd (watch (\<lambda>p. p) (new_FileWatcher 0) \<lparr>files = [''/app/test.env''], debounceMs = Some delay\<rparr>)"

section \<open>The merge step: last writer wins, first appearance orders\<close>

lemma map_fst_Map_set:
  "map fst (Map_set m k v) = (if k \<in> fst ` set m then map fst m else map fst m @ [k])"
  by (induction m) force+

lemma map_of_Map_set: "map_of (Map_set m k v) = (map_of m)(k \<mapsto> v)"
  by (induction m) (auto simp: fun_eq_iff)

lemma distinct_Map_set: "distinct (map fst m) \<Longrightarrow> distinct (map fst (Map_set m k v))"
  by (simp add: map_fst_Map_set)

lemma fold_merge_file: "fold merge_file vss m = merge_file (concat vss) m"
  by (induction vss arbitrary: m) (simp_all add: merge_file_def)

lemma mergeVariables_concat: "mergeVariables vss = Map_values (merge_file (concat vss) [])"
  by (simp add: mergeVariables_def fold_merge_file)

lemma merge_file_snoc:
  "merge_file (vars @ [v]) [] = Map_set (merge_file vars []) (key v) v"
  by (simp add: merge_file_def)

lemma merge_file_Nil: "merge_file [] [] = []"
  by (simp add: merge_file_def)

lemma keys_merge_file: "fst ` set (merge_file vars []) = key ` set vars"
proof (induction vars rule: rev_induct)
  case Nil
  show ?case by (simp add: merge_file_Nil)
next
  case (snoc v vars)
  have "fst ` set (Map_set (merge_file vars []) (key v) v)
          = set (map fst (Map_set (merge_file vars []) (key v) v))"
    by simp
  also have "\<dots> = insert (key v) (fst ` set (merge_file vars []))"
    by (auto simp: map_fst_Map_set)
  finally show ?case using snoc by (simp add: merge_file_snoc)
qed

lemma distinct_merge_file: "distinct (map fst (merge_file vars []))"
  by (induction vars rule: rev_induct)
     (simp_all add: merge_file_Nil merge_file_snoc distinct_Map_set)

lemma map_of_merge_file:
  "map_of (merge_file vars []) k = find (\<lambda>v. key v = k) (rev vars)"
  by (induction vars rule: rev_induct)
     (simp_all add: merge_file_Nil merge_file_snoc map_of_Map_set)

lemma entry_key_merge_file:
  assumes "(k, v) \<in> set (merge_file vars [])"
  shows "key v = k"
proof -
  from assms have "map_of (merge_file vars []) k = Some v"
    using distinct_merge_file by (simp add: map_of_eq_Some_iff)
  then have "find (\<lambda>v. key v = k) (rev vars) = Some v"
    by (simp add: map_of_merge_file)
  then show "key v = k"
    by (auto simp: find_Some_iff)
qed

lemma map_key_mergeVariables:
  "map key (mergeVariables vss) = map fst (merge_file (concat vss) [])"
  by (auto simp: mergeVariables_concat Map_values_def dest: entry_key_merge_file)

lemma keys_order_merge_file:
  "map fst (merge_file vars []) = rev (remdups (rev (map key vars)))"
proof (induction vars rule: rev_induct)
  case Nil
  show ?case by (simp add: merge_file_Nil)
next
  case (snoc v vars)
  show ?case
    using snoc keys_merge_file [of vars]
    by (simp add: merge_file_snoc map_fst_Map_set)
qed

lemma find_append_left: "find P xs = None \<Longrightarrow> find P (xs @ ys) = find P ys"
  by (induction xs) (auto split: if_splits)

lemma find_append_right: "find P xs = Some r \<Longrightarrow> find P (xs @ ys) = Some r"
  by (induction xs) (auto split: if_splits)

lemma filter_key_values:
  "distinct (map fst m) \<Longrightarrow> \<forall>e \<in> set m. key (snd e) = fst e \<Longrightarrow> map_of m k = Some r
   \<Longrightarrow> filter (\<lambda>v. key v = k) (map snd m) = [r]"
proof (induction m)
  case Nil
  then show ?case by simp
next
  case (Cons e m)
  show ?case
  proof (cases "fst e = k")
    case True
    with Cons.prems have r: "snd e = r" by (cases e) simp
    from True Cons.prems have "\<forall>e' \<in> set m. key (snd e') \<noteq> k"
      by (metis distinct.simps(2) image_eqI list.set_intros(2) list.simps(9) set_map)
    then have "filter (\<lambda>v. key v = k) (map snd m) = []"
      by (simp add: filter_empty_conv)
    with True r Cons.prems show ?thesis by simp
  next
    case False
    with Cons.prems have "map_of m k = Some r" by (cases e) auto
    with Cons False show ?thesis by simp
  qed
qed

text \<open>
  C1. Whatever the lists of the files are, the merge has one record for each key that
  occurs in them and none for any other key. If \<open>vs\<close> is the last list that has the key
  \<open>k\<close> (no list after it has), then the one record of \<open>k\<close> in the merge is the last
  record of \<open>k\<close> in \<open>vs\<close>: that record itself, so its value and its comment.
\<close>

theorem mergeVariables_last_writer_wins:
  "distinct (map key (mergeVariables vss)) \<and>
   key ` set (mergeVariables vss) = key ` set (concat vss) \<and>
   (\<forall>pre vs post k.
      vss = pre @ vs # post \<and> k \<in> key ` set vs \<and> k \<notin> key ` set (concat post) \<longrightarrow>
      (\<exists>r. filter (\<lambda>v. key v = k) (mergeVariables vss) = [r] \<and>
           find (\<lambda>v. key v = k) (rev vs) = Some r))"
proof (intro conjI allI impI)
  show "distinct (map key (mergeVariables vss))"
    by (simp add: map_key_mergeVariables distinct_merge_file)
  have "key ` set (mergeVariables vss) = set (map key (mergeVariables vss))" by simp
  also have "\<dots> = fst ` set (merge_file (concat vss) [])"
    by (simp only: map_key_mergeVariables set_map)
  finally show "key ` set (mergeVariables vss) = key ` set (concat vss)"
    by (simp only: keys_merge_file)
next
  fix pre vs post k
  assume h: "vss = pre @ vs # post \<and> k \<in> key ` set vs \<and> k \<notin> key ` set (concat post)"
  then obtain r where r: "find (\<lambda>v. key v = k) (rev vs) = Some r"
    by (cases "find (\<lambda>v. key v = k) (rev vs)") (auto simp: find_None_iff)
  from h have "\<forall>v \<in> set (concat post). key v \<noteq> k"
    by (metis imageI)
  then have "\<not> (\<exists>v. v \<in> set (rev (concat post)) \<and> key v = k)"
    by (simp only: set_rev) blast
  then have none: "find (\<lambda>v. key v = k) (rev (concat post)) = None"
    by (simp add: find_None_iff)
  have "rev (concat vss) = rev (concat post) @ rev vs @ rev (concat pre)"
    using h by simp
  then have "find (\<lambda>v. key v = k) (rev (concat vss)) = Some r"
    using none r by (simp add: find_append_left find_append_right)
  then have look: "map_of (merge_file (concat vss) []) k = Some r"
    by (simp add: map_of_merge_file)
  have "filter (\<lambda>v. key v = k) (map snd (merge_file (concat vss) [])) = [r]"
    by (rule filter_key_values [OF distinct_merge_file _ look]) (auto dest: entry_key_merge_file)
  then show "\<exists>r. filter (\<lambda>v. key v = k) (mergeVariables vss) = [r] \<and>
           find (\<lambda>v. key v = k) (rev vs) = Some r"
    using r by (simp add: mergeVariables_concat Map_values_def)
qed

text \<open>
  The merge of the files \<open>KEY=value1\<close> (with a comment) and \<open>KEY=value2\<close>: the second
  file is the last that has \<open>KEY\<close>, and the one record of \<open>KEY\<close> is its record.
\<close>

theorem mergeVariables_last_writer_wins_witness:
  "[[\<lparr>key = ''KEY'', val = ''value1'', comment = Some ''first''\<rparr>],
    [\<lparr>key = ''KEY'', val = ''value2'', comment = None\<rparr>]]
     = [[\<lparr>key = ''KEY'', val = ''value1'', comment = Some ''first''\<rparr>]]
       @ [\<lparr>key = ''KEY'', val = ''value2'', comment = None\<rparr>] # []
   \<and> ''KEY'' \<in> key ` set [\<lparr>key = ''KEY'', val = ''value2'', comment = None\<rparr>]
   \<and> ''KEY'' \<notin> key ` set (concat ([] :: EnvVariable list list))
   \<and> filter (\<lambda>v. key v = ''KEY'')
        (mergeVariables [[\<lparr>key = ''KEY'', val = ''value1'', comment = Some ''first''\<rparr>],
                         [\<lparr>key = ''KEY'', val = ''value2'', comment = None\<rparr>]])
      = [\<lparr>key = ''KEY'', val = ''value2'', comment = None\<rparr>]"
proof -
  let ?v1 = "\<lparr>key = ''KEY'', val = ''value1'', comment = Some ''first''\<rparr>"
  let ?v2 = "\<lparr>key = ''KEY'', val = ''value2'', comment = None\<rparr>"
  have h: "[[?v1], [?v2]] = [[?v1]] @ [?v2] # [] \<and> ''KEY'' \<in> key ` set [?v2]
           \<and> ''KEY'' \<notin> key ` set (concat ([] :: EnvVariable list list))"
    by simp
  from mergeVariables_last_writer_wins [of "[[?v1], [?v2]]"]
  have "\<forall>pre vs post k.
      [[?v1], [?v2]] = pre @ vs # post \<and> k \<in> key ` set vs \<and> k \<notin> key ` set (concat post) \<longrightarrow>
      (\<exists>r. filter (\<lambda>v. key v = k) (mergeVariables [[?v1], [?v2]]) = [r] \<and>
           find (\<lambda>v. key v = k) (rev vs) = Some r)"
    by (elim conjE)
  then have "\<exists>r. filter (\<lambda>v. key v = ''KEY'') (mergeVariables [[?v1], [?v2]]) = [r] \<and>
           find (\<lambda>v. key v = ''KEY'') (rev [?v2]) = Some r"
    using h by blast
  then have "filter (\<lambda>v. key v = ''KEY'') (mergeVariables [[?v1], [?v2]]) = [?v2]"
    by simp
  with h show ?thesis by simp
qed

text \<open>
  C2. The keys of the merge stand in the order in which each key first appears across the
  lists. (\<open>remdups\<close> keeps the last occurrence of each element; on the reversed list that
  is the first occurrence, and reversing again gives the order of first appearance.)
  A later record of a key replaces the earlier one where it stands: by C1 the record
  is the last one, by this theorem its place is that of the first.
\<close>

theorem mergeVariables_first_appearance_order:
  "map key (mergeVariables vss) = rev (remdups (rev (map key (concat vss))))"
  by (simp only: map_key_mergeVariables keys_order_merge_file)

text \<open>
  Two files: \<open>KEY=value1\<close>, \<open>A=1\<close> and then \<open>B=2\<close>, \<open>KEY=value2\<close>. The keys come out as
  \<open>KEY\<close>, \<open>A\<close>, \<open>B\<close>: \<open>KEY\<close> keeps the first place, with the record of the second file.
\<close>

theorem mergeVariables_first_appearance_order_witness:
  "map key (mergeVariables
      [[\<lparr>key = ''KEY'', val = ''value1'', comment = Some ''first''\<rparr>,
        \<lparr>key = ''A'', val = ''1'', comment = None\<rparr>],
       [\<lparr>key = ''B'', val = ''2'', comment = None\<rparr>,
        \<lparr>key = ''KEY'', val = ''value2'', comment = None\<rparr>]]) = [''KEY'', ''A'', ''B'']
   \<and> mergeVariables
      [[\<lparr>key = ''KEY'', val = ''value1'', comment = Some ''first''\<rparr>,
        \<lparr>key = ''A'', val = ''1'', comment = None\<rparr>],
       [\<lparr>key = ''B'', val = ''2'', comment = None\<rparr>,
        \<lparr>key = ''KEY'', val = ''value2'', comment = None\<rparr>]]
     = [\<lparr>key = ''KEY'', val = ''value2'', comment = None\<rparr>,
        \<lparr>key = ''A'', val = ''1'', comment = None\<rparr>,
        \<lparr>key = ''B'', val = ''2'', comment = None\<rparr>]"
proof
  show "map key (mergeVariables
      [[\<lparr>key = ''KEY'', val = ''value1'', comment = Some ''first''\<rparr>,
        \<lparr>key = ''A'', val = ''1'', comment = None\<rparr>],
       [\<lparr>key = ''B'', val = ''2'', comment = None\<rparr>,
        \<lparr>key = ''KEY'', val = ''value2'', comment = None\<rparr>]]) = [''KEY'', ''A'', ''B'']"
    by (simp add: mergeVariables_first_appearance_order)
  show "mergeVariables
      [[\<lparr>key = ''KEY'', val = ''value1'', comment = Some ''first''\<rparr>,
        \<lparr>key = ''A'', val = ''1'', comment = None\<rparr>],
       [\<lparr>key = ''B'', val = ''2'', comment = None\<rparr>,
        \<lparr>key = ''KEY'', val = ''value2'', comment = None\<rparr>]]
     = [\<lparr>key = ''KEY'', val = ''value2'', comment = None\<rparr>,
        \<lparr>key = ''A'', val = ''1'', comment = None\<rparr>,
        \<lparr>key = ''B'', val = ''2'', comment = None\<rparr>]"
    by (simp add: mergeVariables_def merge_file_def Map_values_def)
qed

section \<open>Type inference\<close>

lemma not_digit_minus_dot: "\<not> is_digit (CHR ''-'')" "\<not> is_digit (CHR ''.'')"
  by (simp_all add: is_digit_def)

lemma is_number_text_grammar:
  "is_number_text v \<longleftrightarrow>
     (\<exists>sign whole frac. v = sign @ whole @ frac \<and> (sign = [] \<or> sign = ''-'') \<and>
        whole \<noteq> [] \<and> list_all is_digit whole \<and>
        (frac = [] \<or> (\<exists>ds. frac = CHR ''.'' # ds \<and> ds \<noteq> [] \<and> list_all is_digit ds)))"
  (is "?L \<longleftrightarrow> ?R")
proof
  assume L: ?L
  define unsigned where "unsigned = (case v of c # r \<Rightarrow> if c = CHR ''-'' then r else v | [] \<Rightarrow> v)"
  define sign where "sign = (case v of c # r \<Rightarrow> if c = CHR ''-'' then ''-'' else [] | [] \<Rightarrow> [])"
  have v: "v = sign @ unsigned" and s: "sign = [] \<or> sign = ''-''"
    by (auto simp: sign_def unsigned_def split: list.splits)
  let ?whole = "takeWhile is_digit unsigned" and ?rest = "dropWhile is_digit unsigned"
  from L have w: "?whole \<noteq> []"
    and r: "(case ?rest of [] \<Rightarrow> True | c # frac \<Rightarrow> c = CHR ''.'' \<and> frac \<noteq> [] \<and> list_all is_digit frac)"
    unfolding is_number_text_def unsigned_def Let_def by auto
  have d: "list_all is_digit ?whole"
    by (auto simp: list_all_iff dest: set_takeWhileD)
  have "v = sign @ ?whole @ ?rest" using v by simp
  moreover have "?rest = [] \<or> (\<exists>ds. ?rest = CHR ''.'' # ds \<and> ds \<noteq> [] \<and> list_all is_digit ds)"
    using r by (cases ?rest) auto
  ultimately show ?R using s w d by blast
next
  assume ?R
  then obtain sign whole frac where v: "v = sign @ whole @ frac"
    and s: "sign = [] \<or> sign = ''-''" and w: "whole \<noteq> []" and d: "list_all is_digit whole"
    and f: "frac = [] \<or> (\<exists>ds. frac = CHR ''.'' # ds \<and> ds \<noteq> [] \<and> list_all is_digit ds)"
    by blast
  from w d have hd: "is_digit (hd whole)" by (cases whole) auto
  then have hdm: "hd whole \<noteq> CHR ''-''" using not_digit_minus_dot by auto
  have u: "(case v of c # r \<Rightarrow> if c = CHR ''-'' then r else v | [] \<Rightarrow> v) = whole @ frac"
    using s v w hdm by (cases whole) auto
  have tw: "takeWhile is_digit (whole @ frac) = whole"
    using d f not_digit_minus_dot
    by (auto simp: list_all_iff takeWhile_append2 takeWhile_eq_all_conv[THEN iffD2])
  have dw: "dropWhile is_digit (whole @ frac) = frac"
    using d f not_digit_minus_dot by (auto simp: list_all_iff dropWhile_append2)
  show ?L
    unfolding is_number_text_def u Let_def tw dw using w f by auto
qed

lemma inferType_booleans:
  "map inferType [''true'', ''false'', ''TRUE'', ''FALSE''] = [TBoolean, TBoolean, TBoolean, TBoolean]"
  by code_simp

lemma inferType_numbers:
  "map inferType [''42'', ''3.14'', ''-100'', ''-5.5''] = [TNumber, TNumber, TNumber, TNumber]"
  by code_simp

lemma inferType_objects:
  \<open>map inferType [''{"key":"value"}'', ''{"k":"v"}'', ''[1,2,3]''] = [TObject, TObject, TObject]\<close>
  by code_simp

lemma inferType_strings:
  "map inferType [''{invalid}'', ''[invalid]'', ''hello'', ''postgresql://localhost'']
     = [TString, TString, TString, TString]"
  by code_simp

text \<open>
  C9. \<open>inferType\<close> checks boolean, then number, then object, and answers string when none
  matches; the first match wins. A value is a boolean when its lower-case form is \<open>true\<close>
  or \<open>false\<close> (so in any letter case); a number exactly when it is an optional \<open>-\<close>,
  one or more digits, and optionally a \<open>.\<close> with one or more digits (no exponent, no
  \<open>+\<close>); an object when it starts (after white space) with a brace or a bracket and is a
  JSON text. The values of the test suite and of the spec come out as they say:
  \<open>{invalid}\<close> and \<open>[invalid]\<close> are strings.
\<close>

theorem inferType_classification:
  \<open>(is_boolean_text v \<longrightarrow> inferType v = TBoolean)
   \<and> (\<not> is_boolean_text v \<and> is_number_text v \<longrightarrow> inferType v = TNumber)
   \<and> (\<not> is_boolean_text v \<and> \<not> is_number_text v \<and> is_structured_text v \<longrightarrow> inferType v = TObject)
   \<and> (\<not> is_boolean_text v \<and> \<not> is_number_text v \<and> \<not> is_structured_text v \<longrightarrow> inferType v = TString)
   \<and> (is_boolean_text v \<longleftrightarrow> toLowerCase v = ''true'' \<or> toLowerCase v = ''false'')
   \<and> (is_number_text v \<longleftrightarrow>
        (\<exists>sign whole frac. v = sign @ whole @ frac \<and> (sign = [] \<or> sign = ''-'') \<and>
           whole \<noteq> [] \<and> list_all is_digit whole \<and>
           (frac = [] \<or> (\<exists>ds. frac = CHR ''.'' # ds \<and> ds \<noteq> [] \<and> list_all is_digit ds))))
   \<and> (is_structured_text v \<longleftrightarrow>
        (\<exists>c rest. dropWhile is_ws v = c # rest \<and> (c = CHR ''{'' \<or> c = CHR ''['')) \<and> JSON_parse_ok v)
   \<and> map inferType [''true'', ''false'', ''TRUE'', ''FALSE''] = [TBoolean, TBoolean, TBoolean, TBoolean]
   \<and> map inferType [''42'', ''3.14'', ''-100'', ''-5.5''] = [TNumber, TNumber, TNumber, TNumber]
   \<and> map inferType [''{"key":"value"}'', ''{"k":"v"}'', ''[1,2,3]''] = [TObject, TObject, TObject]
   \<and> map inferType [''{invalid}'', ''[invalid]'', ''hello'', ''postgresql://localhost'']
       = [TString, TString, TString, TString]\<close>
proof -
  have s: "is_structured_text v \<longleftrightarrow>
        (\<exists>c rest. dropWhile is_ws v = c # rest \<and> (c = CHR ''{'' \<or> c = CHR ''['')) \<and> JSON_parse_ok v"
  proof -
    have "\<And>xs :: string. (case xs of [] \<Rightarrow> False | c # x \<Rightarrow> (c = CHR ''{'' \<or> c = CHR ''['') \<and> JSON_parse_ok v)
        \<longleftrightarrow> (\<exists>c rest. xs = c # rest \<and> (c = CHR ''{'' \<or> c = CHR ''['')) \<and> JSON_parse_ok v"
      subgoal for xs by (cases xs) auto
      done
    then show ?thesis unfolding is_structured_text_def by blast
  qed
  have b: "is_boolean_text v \<longleftrightarrow> toLowerCase v = ''true'' \<or> toLowerCase v = ''false''"
    by (simp add: is_boolean_text_def)
  have 1: "is_boolean_text v \<longrightarrow> inferType v = TBoolean"
    and 2: "\<not> is_boolean_text v \<and> is_number_text v \<longrightarrow> inferType v = TNumber"
    and 3: "\<not> is_boolean_text v \<and> \<not> is_number_text v \<and> is_structured_text v \<longrightarrow> inferType v = TObject"
    and 4: "\<not> is_boolean_text v \<and> \<not> is_number_text v \<and> \<not> is_structured_text v \<longrightarrow> inferType v = TString"
    by (simp_all add: inferType_def)
  from 1 2 3 4 b is_number_text_grammar [of v] s inferType_booleans inferType_numbers
    inferType_objects inferType_strings
  show ?thesis by (intro conjI)
qed
text \<open>
  The theorem at \<open>-100\<close> (a number, not a boolean), at \<open>True\<close> (a boolean in mixed case)
  and at \<open>{invalid}\<close> (none of the three, so a string).
\<close>

theorem inferType_classification_witness:
  "\<not> is_boolean_text ''-100'' \<and> is_number_text ''-100'' \<and> inferType ''-100'' = TNumber
   \<and> is_boolean_text ''True'' \<and> inferType ''True'' = TBoolean
   \<and> \<not> is_structured_text ''{invalid}'' \<and> inferType ''{invalid}'' = TString"
proof -
  have a: "\<not> is_boolean_text ''-100'' \<and> is_number_text ''-100''" by code_simp
  have b: "is_boolean_text ''True''" by code_simp
  have c: "\<not> is_boolean_text ''{invalid}'' \<and> \<not> is_number_text ''{invalid}'' \<and> \<not> is_structured_text ''{invalid}''"
    by code_simp
  from inferType_classification [of "''-100''"]
  have 1: "\<not> is_boolean_text ''-100'' \<and> is_number_text ''-100'' \<longrightarrow> inferType ''-100'' = TNumber"
    by (elim conjE)
  from inferType_classification [of "''True''"]
  have 2: "is_boolean_text ''True'' \<longrightarrow> inferType ''True'' = TBoolean"
    by (elim conjE)
  from inferType_classification [of "''{invalid}''"]
  have 3: "\<not> is_boolean_text ''{invalid}'' \<and> \<not> is_number_text ''{invalid}'' \<and> \<not> is_structured_text ''{invalid}''
        \<longrightarrow> inferType ''{invalid}'' = TString"
    by (elim conjE)
  from a b c 1 2 3 show ?thesis by simp
qed

section \<open>FileWatcher.watch on a running watcher\<close>

text \<open>
  C6. When \<open>watch\<close> is called on a watcher that is running (\<open>isWatching\<close>), it throws
  at once an \<open>EnvTypeGeneratorError\<close>, "Watcher is already running", and the state is the
  one before the call: the handle, the timers and the pending timeouts are untouched, and
  nothing is queued.
\<close>

theorem watch_when_already_running:
  "isWatching w \<Longrightarrow>
     (\<exists>e. watch resolve w options = (Inl e, w) \<and> instanceof e EnvTypeGeneratorError
          \<and> e = new_EnvTypeGeneratorError ''Watcher is already running'')"
  by (simp add: watch_def isWatching_def instanceof_def new_EnvTypeGeneratorError_def Let_def)
text \<open>
  The test "should throw error if watcher is already running": \<open>watch\<close> twice on a new
  watcher.
\<close>

theorem watch_when_already_running_witness:
  "isWatching (snd (watch (\<lambda>p. p) (new_FileWatcher 0) \<lparr>files = [''test.env''], debounceMs = None\<rparr>))
   \<and> fst (watch (\<lambda>p. p) (snd (watch (\<lambda>p. p) (new_FileWatcher 0) \<lparr>files = [''test.env''], debounceMs = None\<rparr>))
        \<lparr>files = [''test.env''], debounceMs = None\<rparr>)
     = Inl (Exn EnvTypeGeneratorError ''Watcher is already running'')
   \<and> snd (watch (\<lambda>p. p) (snd (watch (\<lambda>p. p) (new_FileWatcher 0) \<lparr>files = [''test.env''], debounceMs = None\<rparr>))
        \<lparr>files = [''test.env''], debounceMs = None\<rparr>)
     = snd (watch (\<lambda>p. p) (new_FileWatcher 0) \<lparr>files = [''test.env''], debounceMs = None\<rparr>)"
proof -
  let ?o = "\<lparr>files = [''test.env''], debounceMs = None\<rparr>"
  let ?w = "snd (watch (\<lambda>p. p) (new_FileWatcher 0) ?o)"
  have h: "isWatching ?w"
    by (simp add: watch_def isWatching_def new_FileWatcher_def)
  from watch_when_already_running [OF h, of "\<lambda>p. p" ?o]
  show ?thesis using h by (auto simp: new_EnvTypeGeneratorError_def)
qed

section \<open>ValidationGenerator.generateSchema: \<open>none\<close> and unknown libraries\<close>

text \<open>
  C7. Whatever the variables and the options are, \<open>generateSchema\<close> returns the absent
  result for the library \<open>none\<close>, and fails with a \<open>GenerationError\<close> for any library
  that is not \<open>zod\<close>, \<open>yup\<close>, \<open>joi\<close> or \<open>none\<close>.
\<close>

theorem generateSchema_none_and_unsupported:
  "generateSchema texts vars ''none'' options = Inr None
   \<and> (lib \<notin> {''zod'', ''yup'', ''joi'', ''none''} \<longrightarrow>
        (\<exists>e. generateSchema texts vars lib options = Inl e \<and> error_name e = GenerationError))"
  by (simp add: generateSchema_def new_GenerationError_def)
text \<open>The library \<open>invalid\<close> of the test suite.\<close>

theorem generateSchema_none_and_unsupported_witness:
  "''invalid'' \<notin> {''zod'', ''yup'', ''joi'', ''none''}
   \<and> generateSchema \<lparr>zod_schema = (\<lambda>vars options. ''z''), yup_schema = (\<lambda>vars options. ''y''),
                       joi_schema = (\<lambda>vars options. ''j'')\<rparr>
        [\<lparr>key = ''DATABASE_URL'', val = ''postgresql://localhost'', comment = None\<rparr>,
         \<lparr>key = ''PORT'', val = ''3000'', comment = None\<rparr>]
        ''invalid''
        \<lparr>parseTypes = True, validationLib = ''zod'', requiredVars = [''DATABASE_URL''], strict = False\<rparr>
      = Inl (Exn GenerationError ''Type generation failed: Unsupported validation library: invalid'')"
proof -
  let ?texts = "\<lparr>zod_schema = (\<lambda>vars options. ''z''), yup_schema = (\<lambda>vars options. ''y''),
                 joi_schema = (\<lambda>vars options. ''j'')\<rparr>"
  let ?vars = "[\<lparr>key = ''DATABASE_URL'', val = ''postgresql://localhost'', comment = None\<rparr>,
                \<lparr>key = ''PORT'', val = ''3000'', comment = None\<rparr>]"
  let ?options = "\<lparr>parseTypes = True, validationLib = ''zod'', requiredVars = [''DATABASE_URL''],
                   strict = False\<rparr>"
  have h: "''invalid'' \<notin> {''zod'', ''yup'', ''joi'', ''none''}" by simp
  with generateSchema_none_and_unsupported [of ?texts ?vars ?options "''invalid''"]
  obtain e where e: "generateSchema ?texts ?vars ''invalid'' ?options = Inl e"
    and "error_name e = GenerationError"
    by blast
  have "e = Exn GenerationError ''Type generation failed: Unsupported validation library: invalid''"
    using e by (simp add: generateSchema_def new_GenerationError_def)
  with e h show ?thesis by simp
qed

section \<open>TypeGenerator.generateTypes in strict mode\<close>











section \<open>GeneratorService.generate: a missing file\<close>

lemma parseFile_missing:
  "contents fs (path_resolve fs file) = None
   \<Longrightarrow> parseFile parseContent fs file = Inl (new_FileNotFoundError (path_resolve fs file))"
  by (simp add: parseFile_def)

lemma parseFile_present:
  "contents fs (path_resolve fs file) = Some text
   \<Longrightarrow> parseFile parseContent fs file
       = Inr \<lparr>variables = parseContent text, filePath = path_resolve fs file\<rparr>"
  by (simp add: parseFile_def)

lemma parseFiles_missing:
  "\<exists>file \<in> set paths. contents fs (path_resolve fs file) = None
   \<Longrightarrow> \<exists>missing \<in> set paths. contents fs (path_resolve fs missing) = None \<and>
         parseFiles parseContent fs paths = Inl (new_FileNotFoundError (path_resolve fs missing))"
proof (induction paths)
  case Nil
  then show ?case by simp
next
  case (Cons f rest)
  show ?case
  proof (cases "contents fs (path_resolve fs f)")
    case None
    then show ?thesis by (auto simp: parseFile_missing)
  next
    case (Some body)
    with Cons.prems have "\<exists>file \<in> set rest. contents fs (path_resolve fs file) = None"
      by auto
    from Cons.IH [OF this] obtain missing where "missing \<in> set rest"
      "contents fs (path_resolve fs missing) = None"
      "parseFiles parseContent fs rest = Inl (new_FileNotFoundError (path_resolve fs missing))"
      by blast
    with Some show ?thesis by (auto simp: parseFile_present)
  qed
qed

lemma generate_parse_failure:
  "parser_parseFiles svc fs (envFiles config)
      \<lparr>po_parseTypes = cfg_parseTypes config, po_requiredVars = cfg_requiredVars config\<rparr> = Inl e
   \<Longrightarrow> generate svc config fs = (Inl (new_GenerationError (message e)), fs)"
  by (simp add: generate_def generate_try_def)

text \<open>
  C3, as the code has it. The claim says that a missing file reaches the caller of
  \<open>generate\<close> as a \<open>FileNotFoundError\<close>. It does not: \<open>generate\<close> catches every
  exception of its body and throws a new \<open>GenerationError\<close> with the message of the one
  it caught. On the example, with the second of two files missing, the caller gets a
  \<open>GenerationError\<close>, which is not an instance of \<open>FileNotFoundError\<close>.
\<close>

theorem generate_missing_file_counterexample:
  "fst (generate example_service
          \<lparr>envFiles = [''.env'', ''non-existent.env''], outputPath = ''env.d.ts'',
           cfg_validationLib = None, validationOutput = None, cfg_requiredVars = None,
           cfg_parseTypes = Some False, cfg_strict = Some False, cfg_watch = None\<rparr>
          example_fs)
     = Inl (Exn GenerationError
              ''Type generation failed: Environment file not found: /app/non-existent.env'')
   \<and> \<not> instanceof (Exn GenerationError
              ''Type generation failed: Environment file not found: /app/non-existent.env'')
          FileNotFoundError"
  by (simp add: generate_def generate_try_def example_service_def new_GeneratorService_def
      example_fs_def parseFile_def new_FileNotFoundError_def new_GenerationError_def instanceof_def)

text \<open>
  C3, amended. Parsing a path that does not resolve to an existing file fails with
  \<open>FileNotFoundError\<close>. When a file of a generation is missing, \<open>parseFiles\<close> fails with
  the \<open>FileNotFoundError\<close> of a missing file, and \<open>generate\<close> fails with a
  \<open>GenerationError\<close> whose message is "Type generation failed: " and the message of
  that \<open>FileNotFoundError\<close>: the failure is not swallowed and no file is skipped. Nothing
  is written: the file system after the call is the one before it.
\<close>

theorem generate_missing_file:
  assumes "parser_parseFiles svc = (\<lambda>fs files opts. parseFiles parseContent fs files)"
    and "file \<in> set (envFiles config)"
    and "contents fs (path_resolve fs file) = None"
  shows "parseFile parseContent fs file = Inl (new_FileNotFoundError (path_resolve fs file))
       \<and> (\<exists>missing \<in> set (envFiles config).
            contents fs (path_resolve fs missing) = None \<and>
            parseFiles parseContent fs (envFiles config)
              = Inl (new_FileNotFoundError (path_resolve fs missing)) \<and>
            generate svc config fs
              = (Inl (new_GenerationError (message (new_FileNotFoundError (path_resolve fs missing)))), fs))"
proof
  show "parseFile parseContent fs file = Inl (new_FileNotFoundError (path_resolve fs file))"
    using assms(3) by (rule parseFile_missing)
  from assms(2,3) have "\<exists>file \<in> set (envFiles config). contents fs (path_resolve fs file) = None"
    by blast
  from parseFiles_missing [OF this, of parseContent]
  obtain missing where m: "missing \<in> set (envFiles config)"
    "contents fs (path_resolve fs missing) = None"
    "parseFiles parseContent fs (envFiles config) = Inl (new_FileNotFoundError (path_resolve fs missing))"
    by blast
  then have "generate svc config fs
      = (Inl (new_GenerationError (message (new_FileNotFoundError (path_resolve fs missing)))), fs)"
    using assms(1) by (intro generate_parse_failure) simp
  with m show "\<exists>missing \<in> set (envFiles config).
            contents fs (path_resolve fs missing) = None \<and>
            parseFiles parseContent fs (envFiles config)
              = Inl (new_FileNotFoundError (path_resolve fs missing)) \<and>
            generate svc config fs
              = (Inl (new_GenerationError (message (new_FileNotFoundError (path_resolve fs missing)))), fs)"
    by blast
qed

text \<open>The example again: the service with the parser above, and the missing second file.\<close>

theorem generate_missing_file_witness:
  "parser_parseFiles example_service
     = (\<lambda>fs files opts. parseFiles (\<lambda>text. [\<lparr>key = ''PORT'', val = ''3000'', comment = None\<rparr>]) fs files)
   \<and> ''non-existent.env'' \<in> set [''.env'', ''non-existent.env'']
   \<and> contents example_fs (path_resolve example_fs ''non-existent.env'') = None
   \<and> generate example_service
          \<lparr>envFiles = [''.env'', ''non-existent.env''], outputPath = ''env.d.ts'',
           cfg_validationLib = None, validationOutput = None, cfg_requiredVars = None,
           cfg_parseTypes = Some False, cfg_strict = Some False, cfg_watch = None\<rparr>
          example_fs
       = (Inl (new_GenerationError (message (new_FileNotFoundError ''/app/non-existent.env''))),
          example_fs)"
proof -
  let ?pc = "\<lambda>text :: string. [\<lparr>key = ''PORT'', val = ''3000'', comment = None\<rparr>]"
  let ?cfg = "\<lparr>envFiles = [''.env'', ''non-existent.env''], outputPath = ''env.d.ts'',
           cfg_validationLib = None, validationOutput = None, cfg_requiredVars = None,
           cfg_parseTypes = Some False, cfg_strict = Some False, cfg_watch = None\<rparr>"
  have a: "parser_parseFiles example_service = (\<lambda>fs files opts. parseFiles ?pc fs files)"
    by (simp add: example_service_def new_GeneratorService_def)
  have b: "''non-existent.env'' \<in> set (envFiles ?cfg)" by simp
  have c: "contents example_fs (path_resolve example_fs ''non-existent.env'') = None"
    by (simp add: example_fs_def)
  from generate_missing_file [OF a b c]
  obtain missing where m: "missing \<in> set (envFiles ?cfg)"
    "contents example_fs (path_resolve example_fs missing) = None"
    "generate example_service ?cfg example_fs
       = (Inl (new_GenerationError (message (new_FileNotFoundError (path_resolve example_fs missing)))),
          example_fs)"
    by blast
  from m(1,2) have "missing = ''non-existent.env''"
    by (auto simp: example_fs_def)
  with m(3) have "generate example_service ?cfg example_fs
       = (Inl (new_GenerationError (message (new_FileNotFoundError ''/app/non-existent.env''))),
          example_fs)"
    by (simp add: example_fs_def)
  with a b c show ?thesis by simp
qed


section \<open>GeneratorService.generate: \<open>parseTypes\<close> omitted\<close>







section \<open>FileWatcher: the timers and the map agree\<close>

lemma Map_get_Map_set: "Map_get (Map_set m k v) k' = (if k' = k then Some v else Map_get m k')"
  by (induction m) (auto simp: Map_get_def)

lemma Map_get_Map_delete: "Map_get (Map_delete m k) k' = (if k' = k then None else Map_get m k')"
  by (induction m) (auto simp: Map_get_def Map_delete_def)

lemma Map_get_values: "Map_get m k = Some v \<Longrightarrow> v \<in> set (Map_values m)"
  by (auto simp: Map_get_def Map_values_def dest!: map_of_SomeD intro: rev_image_eqI)

lemma timeouts_clear_all:
  "timeouts (fold (\<lambda>timer w'. clearTimeout w' timer) ts w)
     = filter (\<lambda>x. timer_id x \<notin> set ts) (timeouts w)"
  by (induction ts arbitrary: w) (auto simp: clearTimeout_def intro: filter_cong)

lemma fold_clear_fields:
  "watcher (fold (\<lambda>timer w'. clearTimeout w' timer) ts w) = watcher w"
  "invoked (fold (\<lambda>timer w'. clearTimeout w' timer) ts w) = invoked w"
  "now (fold (\<lambda>timer w'. clearTimeout w' timer) ts w) = now w"
  by (induction ts arbitrary: w) (auto simp: clearTimeout_def)

lemma find_SomeD: "find P xs = Some x \<Longrightarrow> x \<in> set xs \<and> P x"
  by (induction xs) (auto split: if_splits)

lemma same_id:
  assumes "unique_ids w" "x \<in> set (timeouts w)" "y \<in> set (timeouts w)" "timer_id x = timer_id y"
  shows "x = y"
  using assms by (auto simp: unique_ids_def distinct_map dest: inj_onD)

lemma timer_of_path:
  assumes "registered w" "pending w" "unique_ids w"
    and "Map_get (debounceTimers w) f = Some t" and "x \<in> set (timeouts w)"
  shows "timer_id x = t \<longleftrightarrow> for_path x = f"
proof
  assume "timer_id x = t"
  from assms(2,4) obtain y where y: "y \<in> set (timeouts w)" "timer_id y = t" "for_path y = f"
    by (auto simp: pending_def)
  with \<open>timer_id x = t\<close> assms(3,5) have "x = y" by (auto intro: same_id)
  with y show "for_path x = f" by simp
next
  assume "for_path x = f"
  with assms(1,4,5) show "timer_id x = t" by (auto simp: registered_def)
qed

lemma timeouts_handleChange:
  assumes "registered w" "pending w" "unique_ids w"
  shows "timeouts (handleChange w f d)
           = filter (\<lambda>x. for_path x \<noteq> f) (timeouts w)
             @ [\<lparr>timer_id = next_timer w, due = now w + d, for_path = f\<rparr>]"
proof (cases "Map_get (debounceTimers w) f")
  case None
  with assms have "\<forall>x \<in> set (timeouts w). for_path x \<noteq> f"
    by (auto simp: registered_def)
  then have "filter (\<lambda>x. for_path x \<noteq> f) (timeouts w) = timeouts w"
    by (simp add: filter_id_conv)
  with None show ?thesis
    by (simp add: handleChange_def setTimeout_def)
next
  case (Some t)
  have "filter (\<lambda>x. timer_id x \<noteq> t) (timeouts w) = filter (\<lambda>x. for_path x \<noteq> f) (timeouts w)"
    using timer_of_path [OF assms Some] by (auto intro: filter_cong)
  with Some show ?thesis
    by (simp add: handleChange_def setTimeout_def clearTimeout_def)
qed

lemma handleChange_fields:
  "watcher (handleChange w f d) = watcher w"
  "invoked (handleChange w f d) = invoked w"
  "now (handleChange w f d) = now w"
  "next_timer (handleChange w f d) = Suc (next_timer w)"
  "debounceTimers (handleChange w f d) = Map_set (debounceTimers w) f (next_timer w)"
  by (auto simp: handleChange_def setTimeout_def clearTimeout_def split: option.splits)

lemma consistent_handleChange:
  assumes "consistent w" "\<not> released w"
  shows "consistent (handleChange w f d)"
proof -
  from assms have r: "registered w" and p: "pending w" and u: "unique_ids w"
    by (simp_all add: consistent_def)
  note t = timeouts_handleChange [OF r p u, of f d]
  have "registered (handleChange w f d)"
    using r by (auto simp: registered_def t handleChange_fields Map_get_Map_set)
  moreover have "pending (handleChange w f d)"
    unfolding pending_def
  proof (intro allI impI)
    fix g i assume "Map_get (debounceTimers (handleChange w f d)) g = Some i"
    then have "(g = f \<and> i = next_timer w) \<or> (g \<noteq> f \<and> Map_get (debounceTimers w) g = Some i)"
      by (auto simp: handleChange_fields Map_get_Map_set split: if_splits)
    then show "\<exists>x \<in> set (timeouts (handleChange w f d)). timer_id x = i \<and> for_path x = g"
    proof
      assume "g = f \<and> i = next_timer w"
      then show ?thesis by (simp add: t)
    next
      assume "g \<noteq> f \<and> Map_get (debounceTimers w) g = Some i"
      with p obtain x where "x \<in> set (timeouts w)" "timer_id x = i" "for_path x = g" "g \<noteq> f"
        by (auto simp: pending_def)
      then show ?thesis by (auto simp: t)
    qed
  qed
  moreover have "unique_ids (handleChange w f d)"
    using u by (auto simp: unique_ids_def t handleChange_fields distinct_map_filter)
  moreover have "\<not> released (handleChange w f d)"
    using assms(2) by (simp add: released_def handleChange_fields)
  ultimately show ?thesis by (simp add: consistent_def)
qed

lemma step_Fire:
  assumes "step w (Fire t) = Some w'"
  shows "\<exists>x \<in> set (timeouts w). timer_id x = t \<and> due x \<le> now w \<and>
           w' = timer_callback (clearTimeout w t) (for_path x)"
proof (cases "find (\<lambda>x. timer_id x = t) (timeouts w)")
  case None
  with assms show ?thesis by simp
next
  case (Some x)
  from find_SomeD [OF this] assms Some show ?thesis
    by (auto split: if_splits)
qed

lemma timeouts_fire:
  assumes "registered w" "pending w" "unique_ids w" "x \<in> set (timeouts w)"
  shows "timeouts (timer_callback (clearTimeout w (timer_id x)) (for_path x))
           = filter (\<lambda>y. for_path y \<noteq> for_path x) (timeouts w)"
proof -
  from assms(1,4) have m: "Map_get (debounceTimers w) (for_path x) = Some (timer_id x)"
    by (simp add: registered_def)
  have "filter (\<lambda>y. timer_id y \<noteq> timer_id x) (timeouts w)
          = filter (\<lambda>y. for_path y \<noteq> for_path x) (timeouts w)"
    using timer_of_path [OF assms(1-3) m] by (auto intro: filter_cong)
  then show ?thesis by (simp add: timer_callback_def clearTimeout_def)
qed

lemma consistent_fire:
  assumes "consistent w" "x \<in> set (timeouts w)"
  shows "consistent (timer_callback (clearTimeout w (timer_id x)) (for_path x))"
    (is "consistent ?w'")
proof -
  from assms have r: "registered w" and p: "pending w" and u: "unique_ids w"
    and e: "\<not> released w"
    by (auto simp: consistent_def)
  note t = timeouts_fire [OF r p u assms(2)]
  have m: "debounceTimers ?w' = Map_delete (debounceTimers w) (for_path x)"
    and n: "next_timer ?w' = next_timer w" and h: "watcher ?w' = watcher w"
    by (simp_all add: timer_callback_def clearTimeout_def)
  have "registered ?w'"
    using r by (auto simp: registered_def t m Map_get_Map_delete)
  moreover have "pending ?w'"
    using p by (fastforce simp: pending_def t m Map_get_Map_delete split: if_splits)
  moreover have "unique_ids ?w'"
    using u by (auto simp: unique_ids_def t n distinct_map_filter)
  moreover have "\<not> released ?w'"
    using e by (simp add: released_def h)
  ultimately show ?thesis by (simp add: consistent_def)
qed


lemma consistent_step:
  assumes "consistent w" "step w e = Some w'"
  shows "consistent w'"
proof (cases e)
  case (Change f)
  with assms(2) obtain h where "watcher w = Some h" "\<not> closed h"
    "w' = handleChange w f (listener_debounceMs h)"
    by (auto split: option.splits if_splits)
  with assms(1) show ?thesis
    by (auto simp: released_def intro!: consistent_handleChange)
next
  case (Tick n)
  with assms show ?thesis
    by (auto simp: consistent_def registered_def pending_def unique_ids_def released_def)
next
  case (Fire t)
  with assms(2) step_Fire [of w t w'] obtain x where "x \<in> set (timeouts w)"
    "w' = timer_callback (clearTimeout w (timer_id x)) (for_path x)"
    by auto
  with assms(1) show ?thesis by (auto intro: consistent_fire)
qed

lemma clear_timers_timeouts:
  assumes "consistent w"
  shows "timeouts (clear_timers w) = []"
proof -
  from assms have "\<forall>x \<in> set (timeouts w). timer_id x \<in> set (Map_values (debounceTimers w))"
    by (auto simp: consistent_def registered_def intro: Map_get_values)
  then have "filter (\<lambda>x. timer_id x \<notin> set (Map_values (debounceTimers w))) (timeouts w) = []"
    by (simp add: filter_empty_conv)
  then show ?thesis
    by (simp add: clear_timers_def timeouts_clear_all)
qed

lemma stop_begin_timeouts:
  assumes "consistent w"
  shows "timeouts (stop_begin w) = []"
proof (cases "watcher w")
  case None
  with assms show ?thesis by (simp add: stop_begin_def consistent_def released_def)
next
  case (Some h)
  from assms have "\<forall>x \<in> set (timeouts w). timer_id x \<in> set (Map_values (debounceTimers w))"
    by (auto simp: consistent_def registered_def intro: Map_get_values)
  then have "filter (\<lambda>x. timer_id x \<notin> set (Map_values (debounceTimers w))) (timeouts w) = []"
    by (simp add: filter_empty_conv)
  with Some show ?thesis
    by (simp add: stop_begin_def clear_timers_def close_watcher_def fold_clear_fields
        timeouts_clear_all)
qed

lemma stop_begin_maps:
  "pending w \<Longrightarrow> timeouts (stop_begin w) = [] \<Longrightarrow> pending (stop_begin w)"
  by (cases "watcher w")
     (auto simp: stop_begin_def clear_timers_def close_watcher_def fold_clear_fields pending_def
        Map_get_def)

lemma stop_begin_fields:
  "invoked (stop_begin w) = invoked w"
  "released (stop_begin w)"
  "isWatching (stop_begin w) = isWatching w"
  "isWatching w \<Longrightarrow> debounceTimers (stop_begin w) = []"
  by (auto simp: stop_begin_def clear_timers_def close_watcher_def fold_clear_fields released_def
      isWatching_def split: option.splits)

lemma consistent_reachable: "reachable w \<Longrightarrow> consistent w"
proof (induction rule: reachable.induct)
  case (created t)
  show ?case
    by (simp add: consistent_def registered_def pending_def unique_ids_def new_FileWatcher_def
        Map_get_def)
next
  case (watch w resolve options)
  then show ?case
    by (auto simp: consistent_def registered_def pending_def unique_ids_def released_def
        watch_def Let_def)
next
  case (event w e w')
  then show ?case by (auto intro: consistent_step)
next
  case (stop_begin w)
  then show ?case
    using stop_begin_timeouts [of w] stop_begin_maps [of w]
    by (auto simp: consistent_def registered_def pending_def unique_ids_def)
next
  case (stop_finish w h)
  then show ?case
    by (auto simp: consistent_def registered_def pending_def unique_ids_def released_def
        stop_finish_def)
qed

lemma run_released:
  assumes "run w es = Some w'" "released w" "timeouts w = []"
  shows "released w' \<and> timeouts w' = [] \<and> invoked w' = invoked w \<and> watcher w' = watcher w"
  using assms
proof (induction es arbitrary: w)
  case Nil
  then show ?case by simp
next
  case (Cons e es)
  from Cons.prems(1) obtain w1 where s: "step w e = Some w1" and r: "run w1 es = Some w'"
    by (auto split: option.splits)
  have "released w1 \<and> timeouts w1 = [] \<and> invoked w1 = invoked w \<and> watcher w1 = watcher w"
  proof (cases e)
    case (Change f)
    with s Cons.prems(2) show ?thesis by (auto simp: released_def split: option.splits if_splits)
  next
    case (Tick n)
    with s Cons.prems show ?thesis by (auto simp: released_def)
  next
    case (Fire t)
    with s Cons.prems show ?thesis by (auto split: option.splits)
  qed
  with Cons.IH [OF r] show ?case by simp
qed

lemma reachable_run: "reachable w \<Longrightarrow> run w es = Some w' \<Longrightarrow> reachable w'"
proof (induction es arbitrary: w)
  case Nil
  then show ?case by simp
next
  case (Cons e es)
  from Cons.prems(2) obtain w1 where "step w e = Some w1" "run w1 es = Some w'"
    by (auto split: option.splits)
  with Cons.prems(1) Cons.IH show ?case by (blast intro: reachable.event)
qed

lemma reachable_example_watcher: "reachable (example_watcher delay)"
  unfolding example_watcher_def by (rule reachable.watch [OF reachable.created])

lemmas eval_watcher =
  example_watcher_def watch_def new_FileWatcher_def handleChange_def setTimeout_def
  clearTimeout_def timer_callback_def Map_get_def Map_delete_def Map_values_def
  stop_def stop_begin_def clear_timers_def close_watcher_def stop_finish_def isWatching_def

section \<open>FileWatcher.stop\<close>

text \<open>
  C4. In any state a watcher can reach, a call of \<open>stop\<close> (with whatever happens while it
  awaits \<open>close()\<close>): the timers are cleared first, which leaves no timer pending and the
  map empty while the handle is untouched; so at the \<open>await\<close> no timer is pending, and
  the handle is still held (\<open>isWatching\<close> is still true when it was); when \<open>stop\<close> has
  returned, \<open>isWatching\<close> is false, no timer is pending and no callback has run during
  the call; and whatever the event loop does afterwards, no callback runs and
  \<open>isWatching\<close> stays false. \<open>stop\<close> does return when nothing happens during the
  \<open>await\<close>.
\<close>

theorem stop_cancels_every_timer:
  assumes "reachable w" and "stop w es = Some w'"
  shows "timeouts (clear_timers w) = [] \<and> debounceTimers (clear_timers w) = []
       \<and> watcher (clear_timers w) = watcher w
       \<and> timeouts (stop_begin w) = []
       \<and> (isWatching w \<longrightarrow> debounceTimers (stop_begin w) = [] \<and> isWatching (stop_begin w))
       \<and> \<not> isWatching w' \<and> timeouts w' = [] \<and> invoked w' = invoked w
       \<and> (\<forall>later w''. run w' later = Some w'' \<longrightarrow> invoked w'' = invoked w \<and> \<not> isWatching w'')
       \<and> stop w [] \<noteq> None"
proof -
  have c: "consistent w" using assms(1) by (rule consistent_reachable)
  have 1: "timeouts (stop_begin w) = []" using c by (rule stop_begin_timeouts)
  have 2: "isWatching w \<longrightarrow> debounceTimers (stop_begin w) = [] \<and> isWatching (stop_begin w)"
    by (simp add: stop_begin_fields)
  have 3: "released w' \<and> watcher w' = None \<and> timeouts w' = [] \<and> invoked w' = invoked w"
  proof (cases "watcher w")
    case None
    with assms(2) c show ?thesis by (auto simp: stop_def consistent_def released_def)
  next
    case (Some h)
    with assms(2) obtain w1 where r: "run (stop_begin w) es = Some w1" and f: "w' = stop_finish w1"
      by (auto simp: stop_def split: option.splits)
    from run_released [OF r stop_begin_fields(2) 1]
    show ?thesis using f by (simp add: stop_finish_def released_def stop_begin_fields)
  qed
  have 4: "invoked w'' = invoked w \<and> \<not> isWatching w''" if "run w' later = Some w''" for later w''
    using run_released [OF that] 3 by (simp add: isWatching_def)
  have 5: "stop w [] \<noteq> None" by (simp add: stop_def)
  have 6: "timeouts (clear_timers w) = [] \<and> debounceTimers (clear_timers w) = []
       \<and> watcher (clear_timers w) = watcher w"
    using clear_timers_timeouts [OF c] by (simp add: clear_timers_def fold_clear_fields)
  from 1 2 3 4 5 6 show ?thesis by (simp add: isWatching_def)
qed


text \<open>
  The test "should clear debounce timers on stop": delay 500, a change at 100, \<open>stop\<close> at
  200 with a timer pending (due at 600). After \<open>stop\<close>, 600 ms later, no callback has run,
  and the timer 0 cannot fire.
\<close>

theorem stop_cancels_every_timer_witness:
  "reachable (the (run (example_watcher 500) [Tick 100, Change ''/app/test.env'', Tick 100]))
   \<and> map_option timeouts (run (example_watcher 500) [Tick 100, Change ''/app/test.env'', Tick 100])
       = Some [\<lparr>timer_id = 0, due = 600, for_path = ''/app/test.env''\<rparr>]
   \<and> map_option isWatching
        (stop (the (run (example_watcher 500) [Tick 100, Change ''/app/test.env'', Tick 100]))
           [Tick 10]) = Some False
   \<and> (case stop (the (run (example_watcher 500) [Tick 100, Change ''/app/test.env'', Tick 100]))
              [Tick 10] of
         None \<Rightarrow> False
       | Some w' \<Rightarrow> map_option invoked (run w' [Tick 300, Tick 300]) = Some []
                   \<and> run w' [Tick 300, Tick 300, Fire 0] = None)"
proof -
  let ?f = "''/app/test.env''"
  let ?w = "the (run (example_watcher 500) [Tick 100, Change ?f, Tick 100])"
  have run: "run (example_watcher 500) [Tick 100, Change ?f, Tick 100] = Some ?w"
    by (simp add: eval_watcher)
  have r: "reachable ?w"
    using reachable_example_watcher run by (rule reachable_run)
  have t: "map_option timeouts (run (example_watcher 500) [Tick 100, Change ?f, Tick 100])
       = Some [\<lparr>timer_id = 0, due = 600, for_path = ?f\<rparr>]"
    by (simp add: eval_watcher)
  have i: "invoked ?w = []" by (simp add: eval_watcher)
  have "stop ?w [Tick 10] \<noteq> None" by (simp add: eval_watcher)
  then obtain w' where s: "stop ?w [Tick 10] = Some w'" by auto
  note c = stop_cancels_every_timer [OF r s]
  from c have nw: "\<not> isWatching w'" and e: "timeouts w' = []" by simp_all
  from c have later: "\<forall>later w''. run w' later = Some w'' \<longrightarrow> invoked w'' = invoked ?w \<and> \<not> isWatching w''"
    by blast
  have "run w' [Tick 300, Tick 300] \<noteq> None" by simp
  then obtain w'' where w'': "run w' [Tick 300, Tick 300] = Some w''" by auto
  with later have "invoked w'' = invoked ?w" by blast
  with i have "invoked w'' = []" by (simp only:)
  with w'' have 1: "map_option invoked (run w' [Tick 300, Tick 300]) = Some []" by simp
  have 2: "run w' [Tick 300, Tick 300, Fire 0] = None"
    using e by simp
  from r t s nw 1 2 show ?thesis by simp
qed


section \<open>FileWatcher: one call for a burst of changes\<close>









end
